theory Spec2Isabelle
  imports Main "HOL-Library.Word"
begin

section \<open>Python values used by the emulator\<close>

text \<open>
  The emulator is Python: integers are unbounded (\<open>int\<close>), a \<open>bytes\<close> object and a
  list of byte values are both a list of 8-bit words, and every exception the modelled code
  can raise is a constructor of \<open>error\<close>. \<open>Blocked\<close> is not an exception: it stands for
  \<open>threading.Lock.acquire()\<close> on a lock that is already held, a call that does not return
  in a sequential run.
\<close>

type_synonym byte = "8 word"

datatype error =
    IndexError
  | UnicodeDecodeError
  | StructError
  | UnboundLocalError
  | AttributeError
  | ZeroDivisionError
  | Blocked

subsection \<open>Slices\<close>

text \<open>
  Python clamps the bounds of a slice to the length of the sequence, counts a negative bound
  from the end, and reads \<open>xs[a:b]\<close> as empty when \<open>b\<close> is not beyond \<open>a\<close>. Assigning to
  \<open>xs[a:b]\<close> replaces that stretch by the new elements, whatever their number; when the
  stretch is empty the new elements are inserted at \<open>a\<close>.
\<close>

definition adjust_index :: "nat \<Rightarrow> int \<Rightarrow> nat" where
  "adjust_index n i = (if i < 0 then nat (int n + i) else min (nat i) n)"

definition slice :: "'a list \<Rightarrow> int \<Rightarrow> int \<Rightarrow> 'a list" where
  \<comment> \<open>\<open>xs[a:b]\<close>\<close>
  "slice xs a b =
     (let lo = adjust_index (length xs) a; hi = adjust_index (length xs) b
      in take (hi - lo) (drop lo xs))"

definition slice_from :: "'a list \<Rightarrow> int \<Rightarrow> 'a list" where
  \<comment> \<open>\<open>xs[a:]\<close>\<close>
  "slice_from xs a = drop (adjust_index (length xs) a) xs"

definition slice_to :: "'a list \<Rightarrow> int \<Rightarrow> 'a list" where
  \<comment> \<open>\<open>xs[:b]\<close>\<close>
  "slice_to xs b = take (adjust_index (length xs) b) xs"

definition set_slice :: "'a list \<Rightarrow> int \<Rightarrow> int \<Rightarrow> 'a list \<Rightarrow> 'a list" where
  \<comment> \<open>\<open>xs[a:b] = ys\<close>\<close>
  "set_slice xs a b ys =
     (let lo = adjust_index (length xs) a; hi = max lo (adjust_index (length xs) b)
      in take lo xs @ ys @ drop hi xs)"

definition set_slice_from :: "'a list \<Rightarrow> int \<Rightarrow> 'a list \<Rightarrow> 'a list" where
  \<comment> \<open>\<open>xs[a:] = ys\<close>\<close>
  "set_slice_from xs a ys = take (adjust_index (length xs) a) xs @ ys"

section \<open>The virtual serial port (virtual\_hardware.py)\<close>

text \<open>
  \<open>SerialPort\<close> holds two circular buffers, each a Python list with a size and a write
  index, and one lock. A method returns its result, or the exception it raised, together with
  the object as the call leaves it.
\<close>

record SerialPort =
  port :: string
  baudrate :: int
  input_buffer_size :: int
  output_buffer_size :: int
  input_buffer_w_index :: int
  output_buffer_w_index :: int
  input_buffer :: "byte list"
  output_buffer :: "byte list"
  lock :: bool

definition SerialPort_init :: "string \<Rightarrow> int \<Rightarrow> int \<Rightarrow> int \<Rightarrow> SerialPort" where
  "SerialPort_init name baud in_size out_size =
     \<lparr> port = name, baudrate = baud,
       input_buffer_size = in_size, output_buffer_size = out_size,
       input_buffer_w_index = 0, output_buffer_w_index = 0,
       input_buffer = replicate (nat in_size) 0,
       output_buffer = replicate (nat out_size) 0,
       lock = False \<rparr>"

definition bind :: "SerialPort \<Rightarrow> int \<times> int" where
  "bind self = (input_buffer_w_index self, output_buffer_w_index self)"

definition put_output :: "SerialPort \<Rightarrow> byte list \<Rightarrow> (error + unit) \<times> SerialPort" where
  "put_output self data =
     (if lock self then (Inl Blocked, self)
      else let self = self\<lparr>lock := True\<rparr> in
        if output_buffer_size self = 0 then (Inl ZeroDivisionError, self)
        else let goal_index =
                   (output_buffer_w_index self + int (length data)) mod output_buffer_size self;
                 self =
                   (if output_buffer_w_index self + int (length data) > output_buffer_size self
                    then
                      let self = self\<lparr>output_buffer :=
                                  set_slice_from (output_buffer self) (output_buffer_w_index self)
                                    (slice_to data
                                       (output_buffer_size self - output_buffer_w_index self))\<rparr>;
                          self = self\<lparr>output_buffer :=
                                  set_slice (output_buffer self) 0 goal_index
                                    (slice_from data
                                       (output_buffer_size self - output_buffer_w_index self))\<rparr>
                      in self\<lparr>output_buffer_w_index := goal_index\<rparr>
                    else
                      let self = self\<lparr>output_buffer :=
                                  set_slice (output_buffer self) (output_buffer_w_index self)
                                    goal_index data\<rparr>
                      in self\<lparr>output_buffer_w_index := goal_index\<rparr>)
             in (Inr (), self\<lparr>lock := False\<rparr>))"

definition get_output ::
  "SerialPort \<Rightarrow> int \<Rightarrow> int \<Rightarrow> (error + byte list \<times> int) \<times> SerialPort" where
  "get_output self sz read_index =
     (if lock self then (Inl Blocked, self)
      else let self = self\<lparr>lock := True\<rparr> in
        if output_buffer_size self = 0 then (Inl ZeroDivisionError, self)
        else let goal_index = (read_index + sz) mod output_buffer_size self;
                 to_send =
                   (if read_index + sz > output_buffer_size self
                    then slice (output_buffer self) read_index (output_buffer_size self)
                         @ slice (output_buffer self) 0 goal_index
                    else slice (output_buffer self) read_index goal_index)
             in (Inr (to_send, goal_index), self\<lparr>lock := False\<rparr>))"

definition put_input :: "SerialPort \<Rightarrow> byte list \<Rightarrow> (error + unit) \<times> SerialPort" where
  "put_input self data =
     (if lock self then (Inl Blocked, self)
      else let self = self\<lparr>lock := True\<rparr> in
        if input_buffer_size self = 0 then (Inl ZeroDivisionError, self)
        else let goal_index =
                   (input_buffer_w_index self + int (length data)) mod input_buffer_size self;
                 self =
                   (if input_buffer_w_index self + int (length data) > input_buffer_size self
                    then
                      let self = self\<lparr>input_buffer :=
                                  set_slice_from (input_buffer self) (input_buffer_w_index self)
                                    (slice_to data
                                       (input_buffer_size self - input_buffer_w_index self))\<rparr>;
                          self = self\<lparr>input_buffer :=
                                  set_slice (input_buffer self) 0 goal_index
                                    (slice_from data
                                       (input_buffer_size self - input_buffer_w_index self))\<rparr>
                      in self\<lparr>input_buffer_w_index := goal_index\<rparr>
                    else
                      let self = self\<lparr>input_buffer :=
                                  set_slice (input_buffer self) (input_buffer_w_index self)
                                    goal_index data\<rparr>
                      in self\<lparr>input_buffer_w_index := goal_index\<rparr>)
             in (Inr (), self\<lparr>lock := False\<rparr>))"

definition get_input ::
  "SerialPort \<Rightarrow> int \<Rightarrow> int \<Rightarrow> (error + byte list \<times> int) \<times> SerialPort" where
  "get_input self sz read_index =
     (if lock self then (Inl Blocked, self)
      else let self = self\<lparr>lock := True\<rparr> in
        if input_buffer_size self = 0 then (Inl ZeroDivisionError, self)
        else let goal_index = (read_index + sz) mod input_buffer_size self;
                 to_send =
                   (if read_index + sz > input_buffer_size self
                    then slice (input_buffer self) read_index (input_buffer_size self)
                         @ slice (input_buffer self) 0 goal_index
                    else slice (input_buffer self) read_index goal_index)
             in (Inr (to_send, goal_index), self\<lparr>lock := False\<rparr>))"

definition input_dat_avail :: "SerialPort \<Rightarrow> int \<Rightarrow> (error + int) \<times> SerialPort" where
  "input_dat_avail self read_index =
     (if lock self then (Inl Blocked, self)
      else let self = self\<lparr>lock := True\<rparr>;
               data_available =
                 (if input_buffer_w_index self > read_index
                  then input_buffer_w_index self - read_index
                  else if input_buffer_w_index self < read_index
                  then input_buffer_size self - read_index + input_buffer_w_index self
                  else 0)
           in (Inr data_available, self\<lparr>lock := False\<rparr>))"

definition output_dat_avail :: "SerialPort \<Rightarrow> int \<Rightarrow> (error + int) \<times> SerialPort" where
  "output_dat_avail self read_index =
     (if lock self then (Inl Blocked, self)
      else let self = self\<lparr>lock := True\<rparr>;
               data_available =
                 (if output_buffer_w_index self > read_index
                  then output_buffer_w_index self - read_index
                  else if output_buffer_w_index self < read_index
                  then output_buffer_size self - read_index + output_buffer_w_index self
                  else 0)
           in (Inr data_available, self\<lparr>lock := False\<rparr>))"

text \<open>
  \<open>VirtualHardware\<close> is the list of its serial ports; \<open>add_serialport\<close> appends a port
  with the constructor's default buffer sizes.
\<close>

definition add_serialport :: "SerialPort list \<Rightarrow> string \<Rightarrow> int \<Rightarrow> SerialPort list" where
  "add_serialport serialports name baud = serialports @ [SerialPort_init name baud 10000 10000]"


section \<open>The client session (client\_instances.py)\<close>

subsection \<open>Library calls: \<open>struct\<close>, \<open>bytes.decode\<close>, list indexing\<close>

text \<open>
  \<open>struct.pack('IIII', a, b, c, d)\<close> raises \<open>struct.error\<close> unless each argument is
  an unsigned 32-bit value; \<open>'IIIi'\<close> takes a signed last argument. A packed response is
  kept as its four numbers. \<open>struct.unpack('I', bs)\<close> needs exactly four bytes and reads them
  in the byte order of the host, least significant byte first.
\<close>

datatype packet = Words int int int int | Raw "byte list"

definition is_uint32 :: "int \<Rightarrow> bool" where
  "is_uint32 v = (0 \<le> v \<and> v < 2 ^ 32)"

definition pack_IIII :: "int \<Rightarrow> int \<Rightarrow> int \<Rightarrow> int \<Rightarrow> error + packet" where
  "pack_IIII a b c d =
     (if is_uint32 a \<and> is_uint32 b \<and> is_uint32 c \<and> is_uint32 d
      then Inr (Words a b c d) else Inl StructError)"

definition pack_IIIi :: "int \<Rightarrow> int \<Rightarrow> int \<Rightarrow> int \<Rightarrow> error + packet" where
  "pack_IIIi a b c d =
     (if is_uint32 a \<and> is_uint32 b \<and> is_uint32 c \<and> - (2 ^ 31) \<le> d \<and> d < 2 ^ 31
      then Inr (Words a b c d) else Inl StructError)"

fun le_uint :: "byte list \<Rightarrow> int" where
  "le_uint [] = 0"
| "le_uint (b # bs) = uint b + 256 * le_uint bs"

definition unpack_I :: "byte list \<Rightarrow> error + int" where
  "unpack_I bs = (if length bs = 4 then Inr (le_uint bs) else Inl StructError)"

text \<open>
  \<open>bs.decode('ascii')\<close> raises on a byte above 127. \<open>bs.decode('utf-8')\<close> raises unless
  \<open>bs\<close> is a sequence of well-formed UTF-8 characters: no stray continuation byte, no
  overlong form, no surrogate, nothing beyond U+10FFFF.
\<close>

definition decode_ascii :: "byte list \<Rightarrow> error + string" where
  "decode_ascii bs =
     (if list_all (\<lambda>b. b < 128) bs then Inr (map (\<lambda>b. char_of (unat b)) bs)
      else Inl UnicodeDecodeError)"

definition cont :: "byte \<Rightarrow> bool" where
  "cont b = (0x80 \<le> b \<and> b \<le> 0xBF)"

fun utf8_valid :: "byte list \<Rightarrow> bool" where
  "utf8_valid [] = True"
| "utf8_valid (b # bs) =
     (if b \<le> 0x7F then utf8_valid bs
      else if 0xC2 \<le> b \<and> b \<le> 0xDF then
        (case bs of c1 # r \<Rightarrow> cont c1 \<and> utf8_valid r | _ \<Rightarrow> False)
      else if b = 0xE0 then
        (case bs of c1 # c2 # r \<Rightarrow> 0xA0 \<le> c1 \<and> c1 \<le> 0xBF \<and> cont c2 \<and> utf8_valid r
         | _ \<Rightarrow> False)
      else if b = 0xED then
        (case bs of c1 # c2 # r \<Rightarrow> 0x80 \<le> c1 \<and> c1 \<le> 0x9F \<and> cont c2 \<and> utf8_valid r
         | _ \<Rightarrow> False)
      else if 0xE1 \<le> b \<and> b \<le> 0xEF then
        (case bs of c1 # c2 # r \<Rightarrow> cont c1 \<and> cont c2 \<and> utf8_valid r | _ \<Rightarrow> False)
      else if b = 0xF0 then
        (case bs of c1 # c2 # c3 # r \<Rightarrow>
           0x90 \<le> c1 \<and> c1 \<le> 0xBF \<and> cont c2 \<and> cont c3 \<and> utf8_valid r
         | _ \<Rightarrow> False)
      else if 0xF1 \<le> b \<and> b \<le> 0xF3 then
        (case bs of c1 # c2 # c3 # r \<Rightarrow> cont c1 \<and> cont c2 \<and> cont c3 \<and> utf8_valid r
         | _ \<Rightarrow> False)
      else if b = 0xF4 then
        (case bs of c1 # c2 # c3 # r \<Rightarrow>
           0x80 \<le> c1 \<and> c1 \<le> 0x8F \<and> cont c2 \<and> cont c3 \<and> utf8_valid r
         | _ \<Rightarrow> False)
      else False)"

definition decode_utf8 :: "byte list \<Rightarrow> error + unit" where
  \<comment> \<open>the decoded text is only logged, so the model keeps whether decoding succeeds\<close>
  "decode_utf8 bs = (if utf8_valid bs then Inr () else Inl UnicodeDecodeError)"

definition getitem :: "'a list \<Rightarrow> int \<Rightarrow> error + nat" where
  \<comment> \<open>\<open>xs[i]\<close>: the position read, or IndexError\<close>
  "getitem xs i =
     (if 0 \<le> i \<and> i < int (length xs) then Inr (nat i)
      else if i < 0 \<and> - int (length xs) \<le> i then Inr (nat (int (length xs) + i))
      else Inl IndexError)"

subsection \<open>Session state\<close>

text \<open>
  A \<open>PigpioSerialInstance\<close> refers to a port object shared with the virtual hardware and
  with every other instance opened on it: the model keeps the ports in one list, the hardware's
  \<open>serialports\<close>, and an instance holds the position of its port there. All instances of a
  session send on the session's own \<open>main_conn\<close>; what was sent is kept in order. The
  loggers are kept as the list of the levels of the entries written. \<open>ext\<close> is the local
  variable of \<open>run\<close> of that name: it is assigned only when a frame has an extension and keeps
  its value from one frame to the next.
\<close>

datatype level = DEBUG | INFO | WARNING | ERROR

datatype ext_value = Unbound | Bytes "byte list" | Str string

record PigpioSerialInstance =
  serialport :: nat
  handle_id :: int
  input_buffer_r_index :: int
  output_buffer_r_index :: int

record PigpioClient =
  serialports :: "SerialPort list"
  serial_instances :: "PigpioSerialInstance list"
  main_conn :: "packet list"
  notification_conn :: "packet list"
  log :: "level list"
  ext :: ext_value

definition PigpioClient_init :: "SerialPort list \<Rightarrow> PigpioClient" where
  "PigpioClient_init virtual_hardware =
     \<lparr> serialports = virtual_hardware, serial_instances = [], main_conn = [],
       notification_conn = [], log = [], ext = Unbound \<rparr>"

definition PigpioSerialInstance_init :: "nat \<Rightarrow> int \<Rightarrow> PigpioSerialInstance" where
  "PigpioSerialInstance_init k h =
     \<lparr> serialport = k, handle_id = h, input_buffer_r_index = 0, output_buffer_r_index = 0 \<rparr>"

text \<open>
  One frame as the session receives it: the four fields of the 16-byte header unpacked with
  \<open>'II4sI'\<close> (\<open>hdr_p2\<close> is the 4-byte string \<open>p2\<close>), and the bytes that the second
  \<open>recv\<close> returns when \<open>p3\<close> is not zero.
\<close>

record frame =
  hdr_cmd :: "32 word"
  hdr_p1 :: "32 word"
  hdr_p2 :: "byte list"
  hdr_p3 :: "32 word"
  payload :: "byte list"

subsection \<open>Methods of \<open>PigpioSerialInstance\<close>\<close>

text \<open>The instance is named by its position \<open>h\<close> in the session's list.\<close>

definition send_words :: "PigpioClient \<Rightarrow> int \<Rightarrow> (error + unit) \<times> PigpioClient" where
  \<comment> \<open>\<open>self.main_conn.send(struct.pack('IIII', 0, 0, 0, v))\<close>\<close>
  "send_words self v =
     (case pack_IIII 0 0 0 v of
        Inl e \<Rightarrow> (Inl e, self)
      | Inr pkt \<Rightarrow> (Inr (), self\<lparr>main_conn := main_conn self @ [pkt]\<rparr>))"

definition open_instance :: "PigpioClient \<Rightarrow> nat \<Rightarrow> (error + unit) \<times> PigpioClient" where
  "open_instance self h =
     (let inst = serial_instances self ! h;
          (i, out) = bind (serialports self ! serialport inst);
          inst = inst\<lparr>input_buffer_r_index := i, output_buffer_r_index := out\<rparr>;
          self = self\<lparr>serial_instances := (serial_instances self)[h := inst]\<rparr>
      in (case send_words self (handle_id inst) of
            (Inl e, self) \<Rightarrow> (Inl e, self)
          | (Inr _, self) \<Rightarrow> (Inr (), self\<lparr>log := log self @ [INFO]\<rparr>)))"

definition close_instance :: "PigpioClient \<Rightarrow> nat \<Rightarrow> (error + unit) \<times> PigpioClient" where
  "close_instance self h =
     (let inst = serial_instances self ! h
      in (case send_words self (handle_id inst) of
            (Inl e, self) \<Rightarrow> (Inl e, self)
          | (Inr _, self) \<Rightarrow> (Inr (), self\<lparr>log := log self @ [INFO]\<rparr>)))"

definition write_request ::
  "PigpioClient \<Rightarrow> nat \<Rightarrow> byte list \<Rightarrow> (error + unit) \<times> PigpioClient" where
  "write_request self h data =
     (let inst = serial_instances self ! h; k = serialport inst
      in if length data < 4 then (Inl StructError, self)
         else let to_add = drop 4 data;
                  (r, q) = put_output (serialports self ! k) to_add;
                  self = self\<lparr>serialports := (serialports self)[k := q]\<rparr>
              in (case r of
                    Inl e \<Rightarrow> (Inl e, self)
                  | Inr _ \<Rightarrow>
                      (case decode_utf8 to_add of
                         Inl e \<Rightarrow> (Inl e, self)
                       | Inr _ \<Rightarrow>
                           send_words (self\<lparr>log := log self @ [INFO]\<rparr>)
                             (handle_id inst))))"

definition read_request ::
  "PigpioClient \<Rightarrow> nat \<Rightarrow> int \<Rightarrow> (error + unit) \<times> PigpioClient" where
  "read_request self h sz =
     (let inst = serial_instances self ! h; k = serialport inst;
          (r, q) = input_dat_avail (serialports self ! k) (input_buffer_r_index inst);
          self = self\<lparr>serialports := (serialports self)[k := q]\<rparr>
      in (case r of
            Inl e \<Rightarrow> (Inl e, self)
          | Inr avail \<Rightarrow>
              (let (r, self) =
                     (if sz > avail
                      then let (r, q) = input_dat_avail (serialports self ! k)
                                          (input_buffer_r_index inst)
                           in (r, self\<lparr>serialports := (serialports self)[k := q]\<rparr>)
                      else (Inr sz, self))
               in (case r of
                     Inl e \<Rightarrow> (Inl e, self)
                   | Inr sz \<Rightarrow>
                       (let (r, q) = get_input (serialports self ! k) sz
                                       (input_buffer_r_index inst);
                            self = self\<lparr>serialports := (serialports self)[k := q]\<rparr>
                        in (case r of
                              Inl e \<Rightarrow> (Inl e, self)
                            | Inr (to_send, goal_index) \<Rightarrow>
                                (let inst = inst\<lparr>input_buffer_r_index := goal_index\<rparr>;
                                     self = self\<lparr>serial_instances :=
                                                   (serial_instances self)[h := inst]\<rparr>
                                 in (case decode_utf8 to_send of
                                       Inl e \<Rightarrow> (Inl e, self)
                                     | Inr _ \<Rightarrow>
                                         (case send_words (self\<lparr>log := log self @ [INFO]\<rparr>)
                                                 (int (length to_send)) of
                                            (Inl e, self) \<Rightarrow> (Inl e, self)
                                          | (Inr _, self) \<Rightarrow>
                                              (Inr (), self\<lparr>main_conn :=
                                                 main_conn self @ [Raw to_send]\<rparr>))))))))))"

definition data_available_request ::
  "PigpioClient \<Rightarrow> nat \<Rightarrow> (error + unit) \<times> PigpioClient" where
  "data_available_request self h =
     (let inst = serial_instances self ! h; k = serialport inst;
          (r, q) = input_dat_avail (serialports self ! k) (input_buffer_r_index inst);
          self = self\<lparr>serialports := (serialports self)[k := q]\<rparr>
      in (case r of
            Inl e \<Rightarrow> (Inl e, self)
          | Inr data_available \<Rightarrow> send_words self data_available))"

subsection \<open>The control loop of \<open>PigpioClient\<close>\<close>

definition PI_CMD_SERO :: int where "PI_CMD_SERO = 76"
definition PI_CMD_SERC :: int where "PI_CMD_SERC = 77"
definition PI_CMD_SERRB :: int where "PI_CMD_SERRB = 78"
definition PI_CMD_SERWB :: int where "PI_CMD_SERWB = 79"
definition PI_CMD_SERR :: int where "PI_CMD_SERR = 80"
definition PI_CMD_SERW :: int where "PI_CMD_SERW = 81"
definition PI_CMD_SERDA :: int where "PI_CMD_SERDA = 82"

text \<open>
  The \<open>for\<close> loop of the open command stops at the first port whose name and bit rate both
  match; its \<open>else\<close> branch runs when no port matches.
\<close>

fun find_serialport :: "SerialPort list \<Rightarrow> string \<Rightarrow> int \<Rightarrow> nat \<Rightarrow> nat option" where
  "find_serialport [] name p1 k = None"
| "find_serialport (sp # rest) name p1 k =
     (if port sp = name \<and> baudrate sp = p1 then Some k
      else find_serialport rest name p1 (Suc k))"

definition serial_open ::
  "PigpioClient \<Rightarrow> int \<Rightarrow> (error + unit) \<times> PigpioClient" where
  \<comment> \<open>the branch \<open>cmd == _PI_CMD_SERO\<close>\<close>
  "serial_open self p1 =
     (case ext self of
        Unbound \<Rightarrow> (Inl UnboundLocalError, self)
      | Str _ \<Rightarrow> (Inl AttributeError, self)
      | Bytes bs \<Rightarrow>
          (case decode_ascii bs of
             Inl e \<Rightarrow> (Inl e, self)
           | Inr name \<Rightarrow>
               (let self = self\<lparr>ext := Str name\<rparr>
                in (case find_serialport (serialports self) name p1 0 of
                      Some k \<Rightarrow>
                        (let self = self\<lparr>serial_instances := serial_instances self @
                                      [PigpioSerialInstance_init k
                                         (int (length (serial_instances self)))]\<rparr>
                         in open_instance self (length (serial_instances self) - 1))
                    | None \<Rightarrow>
                        (case pack_IIIi 0 0 0 (- 1) of
                           Inl e \<Rightarrow> (Inl e, self)
                         | Inr pkt \<Rightarrow>
                             (Inr (), self\<lparr>main_conn := main_conn self @ [pkt],
                                            log := log self @ [ERROR]\<rparr>))))))"

definition run_frame :: "frame \<Rightarrow> PigpioClient \<Rightarrow> (error + unit) \<times> PigpioClient" where
  \<comment> \<open>the body of the loop once a header has been received\<close>
  "run_frame f self =
     (if hdr_p3 f \<noteq> 0 \<and> length (payload f) \<noteq> unat (hdr_p3 f) then (Inl StructError, self)
      else
        let cmd = uint (hdr_cmd f); p1 = uint (hdr_p1 f);
            self = (if hdr_p3 f \<noteq> 0 then self\<lparr>ext := Bytes (payload f)\<rparr> else self);
            p2 = (if hdr_p3 f \<noteq> 0 then hdr_p2 f @ payload f else hdr_p2 f);
            self = self\<lparr>log := log self @ [DEBUG, DEBUG, DEBUG, DEBUG, DEBUG]\<rparr>
        in if cmd = PI_CMD_SERO then serial_open self p1
           else if cmd = PI_CMD_SERC then
             (case getitem (serial_instances self) p1 of
                Inl e \<Rightarrow> (Inl e, self)
              | Inr h \<Rightarrow> close_instance self h)
           else if cmd = PI_CMD_SERW then
             (case getitem (serial_instances self) p1 of
                Inl e \<Rightarrow> (Inl e, self)
              | Inr h \<Rightarrow> write_request self h p2)
           else if cmd = PI_CMD_SERR then
             (case unpack_I p2 of
                Inl e \<Rightarrow> (Inl e, self)
              | Inr p2 \<Rightarrow>
                  (case getitem (serial_instances self) p1 of
                     Inl e \<Rightarrow> (Inl e, self)
                   | Inr h \<Rightarrow> read_request self h p2))
           else if cmd = PI_CMD_SERDA then
             (case getitem (serial_instances self) p1 of
                Inl e \<Rightarrow> (Inl e, self)
              | Inr h \<Rightarrow> data_available_request self h)
           else (Inr (), self\<lparr>log := log self @ [WARNING]\<rparr>))"

text \<open>
  What the loop meets, in order: a frame, a \<open>recv\<close> that returns nothing (the peer closed
  the connection), or a \<open>socket.timeout\<close>, the one exception the loop handles. Any other
  exception leaves \<open>run\<close> and ends the session's thread: the frames that follow are not read.
\<close>

datatype event = Frame frame | Closed | Timeout

fun run_loop :: "event list \<Rightarrow> PigpioClient \<Rightarrow> error option \<times> PigpioClient" where
  "run_loop [] self = (None, self)"
| "run_loop (Closed # rest) self = (None, self\<lparr>log := log self @ [INFO]\<rparr>)"
| "run_loop (Timeout # rest) self = run_loop rest self"
| "run_loop (Frame f # rest) self =
     (case run_frame f self of
        (Inl e, self) \<Rightarrow> (Some e, self)
      | (Inr _, self) \<Rightarrow> run_loop rest self)"

definition run :: "event list \<Rightarrow> PigpioClient \<Rightarrow> error option \<times> PigpioClient" where
  "run events self =
     run_loop events (self\<lparr>notification_conn := notification_conn self @ [Words 10 0 0 0]\<rparr>)"


section \<open>Vocabulary of the properties\<close>

text \<open>
  The two buffers of a port run the same code on different fields. \<open>ring_put\<close> and
  \<open>ring_get\<close> are that code on a bare list, a capacity and a cursor; \<open>window\<close> is what a
  reader expects of a circular buffer: the \<open>n\<close> elements found from position \<open>r\<close> on,
  going round at the capacity.
\<close>

definition ring_put :: "'a list \<Rightarrow> int \<Rightarrow> int \<Rightarrow> 'a list \<Rightarrow> 'a list" where
  "ring_put buf cap w data =
     (if w + int (length data) > cap
      then set_slice (set_slice_from buf w (slice_to data (cap - w))) 0
             ((w + int (length data)) mod cap) (slice_from data (cap - w))
      else set_slice buf w ((w + int (length data)) mod cap) data)"

definition ring_get :: "'a list \<Rightarrow> int \<Rightarrow> int \<Rightarrow> int \<Rightarrow> 'a list" where
  "ring_get buf cap r n =
     (if r + n > cap then slice buf r cap @ slice buf 0 ((r + n) mod cap)
      else slice buf r ((r + n) mod cap))"

definition window :: "'a list \<Rightarrow> int \<Rightarrow> int \<Rightarrow> int \<Rightarrow> 'a list" where
  "window buf cap r n = take (nat n) (rotate (nat r) (take (nat cap) buf))"

text \<open>
  A buffer in working order: the lock is free, the capacity is positive, the write index is
  within the capacity and the list holds at least the capacity. The constructor sets a port
  of positive capacity up so, and every write keeps it so.
\<close>

definition input_ready :: "SerialPort \<Rightarrow> bool" where
  "input_ready self =
     (\<not> lock self \<and> 0 < input_buffer_size self \<and> 0 \<le> input_buffer_w_index self
      \<and> input_buffer_w_index self < input_buffer_size self
      \<and> input_buffer_size self \<le> int (length (input_buffer self)))"

definition output_ready :: "SerialPort \<Rightarrow> bool" where
  "output_ready self =
     (\<not> lock self \<and> 0 < output_buffer_size self \<and> 0 \<le> output_buffer_w_index self
      \<and> output_buffer_w_index self < output_buffer_size self
      \<and> output_buffer_size self \<le> int (length (output_buffer self)))"

text \<open>What a port stores: the bytes of its two buffers and their write indices.\<close>

definition stored :: "SerialPort \<Rightarrow> byte list \<times> int \<times> byte list \<times> int" where
  "stored self =
     (input_buffer self, input_buffer_w_index self, output_buffer self, output_buffer_w_index self)"

text \<open>
  The number both availability queries compute from a write index, a capacity and a read
  cursor.
\<close>

definition dat_avail :: "int \<Rightarrow> int \<Rightarrow> int \<Rightarrow> int" where
  "dat_avail w cap r = (if w > r then w - r else if w < r then cap - r + w else 0)"

text \<open>
  A frame is complete when its extension arrived whole. A session is in order when each
  instance is filed under its own handle and refers to a port of the hardware; a new session
  is in order and no frame changes that.
\<close>

definition complete :: "frame \<Rightarrow> bool" where
  "complete f = (hdr_p3 f = 0 \<or> length (payload f) = unat (hdr_p3 f))"

definition session_ok :: "PigpioClient \<Rightarrow> bool" where
  "session_ok self =
     list_all (\<lambda>i. handle_id (serial_instances self ! i) = int i
                 \<and> serialport (serial_instances self ! i) < length (serialports self))
       [0 ..< length (serial_instances self)]"

section \<open>Slices and the ring\<close>

lemma adjust_index_int [simp]: "adjust_index n (int i) = min i n"
  by (simp add: adjust_index_def)

lemma adjust_index_0 [simp]: "adjust_index n 0 = 0"
  by (simp add: adjust_index_def)

lemma mod_wrap_nat:
  assumes "C < A" "A < 2 * C" "G + C = A"
  shows "int A mod int C = int G"
proof -
  have "G < C" using assms by linarith
  then have "(G + C) mod C = G" by simp
  then have "A mod C = G" using assms by simp
  then show ?thesis by (simp add: zmod_int [symmetric])
qed

lemma ring_get_window_nat:
  assumes "R < C" "N \<le> C" "R + N \<noteq> C" "C \<le> length buf"
  shows "ring_get buf (int C) (int R) (int N) = window buf (int C) (int R) (int N)"
proof (cases "R + N > C")
  case True
  define G where "G = R + N - C"
  have G: "G + C = R + N" using True by (simp add: G_def)
  have g: "(int R + int N) mod int C = int G"
    using mod_wrap_nat [of C "R + N" G] True assms G by simp
  have G': "N + R - C = G" using G by simp
  have "slice buf (int R) (int C) @ slice buf 0 (int G) = take N (rotate R (take C buf))"
    using True assms G
    by (simp add: slice_def rotate_drop_take drop_take G')
  then show ?thesis using True
    by (simp add: ring_get_def window_def g)
next
  case False
  then have lt: "R + N < C" using assms by simp
  define S where "S = R + N"
  have S: "S - R = N" "S < C" "R \<le> S" using lt by (simp_all add: S_def)
  have g: "(int R + int N) mod int C = int S" using lt by (simp add: S_def)
  have "slice buf (int R) (int S) = take N (rotate R (take C buf))"
    using lt assms S
    by (simp add: slice_def rotate_drop_take drop_take)
  then show ?thesis using lt
    by (simp add: ring_get_def window_def g)
qed


lemma ring_put_lt:
  assumes "W + length s < C" "C \<le> length buf"
  shows "ring_put buf (int C) (int W) s = take W buf @ s @ drop (W + length s) buf"
proof -
  define S where "S = W + length s"
  have S: "S < C" "W \<le> S" using assms by (simp_all add: S_def)
  have g: "(int W + int (length s)) mod int C = int S" using assms by (simp add: S_def)
  have "set_slice buf (int W) (int S) s = take W buf @ s @ drop S buf"
    using assms S by (simp add: set_slice_def)
  then show ?thesis using assms by (simp add: ring_put_def g S_def)
qed

lemma ring_put_eq:
  assumes "W + length s = C" "C \<le> length buf" "0 < C"
  shows "ring_put buf (int C) (int W) s = take W buf @ s @ drop W buf"
proof -
  have "int W + int (length s) = int C" using assms by linarith
  then have g: "(int W + int (length s)) mod int C = 0" by simp
  have "set_slice buf (int W) 0 s = take W buf @ s @ drop W buf"
    using assms by (simp add: set_slice_def)
  then show ?thesis using assms by (simp add: ring_put_def g)
qed

lemma ring_put_gt:
  assumes "W + length s > C" "W < C" "length s \<le> C" "C \<le> length buf"
  shows "ring_put buf (int C) (int W) s =
           drop (C - W) s @ drop (W + length s - C) (take W buf) @ take (C - W) s"
proof -
  define G where "G = W + length s - C"
  define D where "D = C - W"
  have G: "G + C = W + length s" "G \<le> W" using assms by (simp_all add: G_def)
  have D: "D + W = C" "D \<le> length s" using assms by (simp_all add: D_def)
  have g: "(int W + int (length s)) mod int C = int G"
    using mod_wrap_nat [of C "W + length s" G] assms(1-3) G(1) by simp
  have d: "int C - int W = int D" using D by linarith
  have "set_slice (set_slice_from buf (int W) (slice_to s (int D))) 0 (int G) (slice_from s (int D))
          = drop D s @ drop G (take W buf) @ take D s"
  proof -
    have "W \<le> length buf" using assms by simp
    then show ?thesis using G(2) D(2)
      by (simp add: set_slice_def set_slice_from_def slice_to_def slice_from_def)
  qed
  then have "ring_put buf (int C) (int W) s = drop D s @ drop G (take W buf) @ take D s"
    using assms(1) by (simp add: ring_put_def g d)
  then show ?thesis unfolding G_def D_def .
qed

lemma ring_put_over:
  assumes "W + length s > C" "W < C" "C \<le> length buf"
  shows "ring_put buf (int C) (int W) s =
           drop (C - W) s @ drop ((W + length s) mod C) (take W buf @ take (C - W) s)"
proof -
  define G where "G = (W + length s) mod C"
  define D where "D = C - W"
  have D: "D \<le> length s" "W + D = C" using assms by (simp_all add: D_def)
  have G: "G < C" using assms by (simp add: G_def)
  have g: "(int W + int (length s)) mod int C = int G"
    by (simp add: G_def zmod_int)
  have d: "int C - int W = int D" using D by linarith
  have "W \<le> length buf" using assms by simp
  then have "set_slice (set_slice_from buf (int W) (slice_to s (int D))) 0 (int G)
          (slice_from s (int D))
          = drop D s @ drop G (take W buf @ take D s)"
    using D G
    by (simp add: set_slice_def set_slice_from_def slice_to_def slice_from_def)
  then have "ring_put buf (int C) (int W) s = drop D s @ drop G (take W buf @ take D s)"
    using assms(1) by (simp add: ring_put_def g d)
  then show ?thesis unfolding G_def D_def .
qed

lemma ring_put_keeps_capacity_nat:
  assumes "W < C" "C \<le> length buf"
  shows "C \<le> length (ring_put buf (int C) (int W) s)"
proof -
  consider (lt) "W + length s < C" | (eq) "W + length s = C" | (gt) "W + length s > C"
    by linarith
  then show ?thesis
  proof cases
    case lt
    then show ?thesis using assms by (simp add: ring_put_lt)
  next
    case eq
    then show ?thesis using assms by (simp add: ring_put_eq)
  next
    case gt
    have "(W + length s) mod C = (W + length s - C) mod C"
      using gt by (simp add: le_mod_geq)
    also have "\<dots> \<le> W + length s - C" by (rule mod_less_eq_dividend)
    finally have G: "(W + length s) mod C \<le> W + length s - C" .
    have G': "(W + length s) mod C < C" using assms by simp
    show ?thesis using gt assms G G' by (simp add: ring_put_over)
  qed
qed

lemma ring_put_window_nat:
  assumes "W < C" "length s \<le> C" "C \<le> length buf"
  shows "window (ring_put buf (int C) (int W) s) (int C) (int W) (int (length s)) = s"
proof -
  consider (lt) "W + length s < C" | (eq) "W + length s = C" | (gt) "W + length s > C"
    by linarith
  then show ?thesis
  proof cases
    case lt
    show ?thesis using lt assms
      by (simp add: ring_put_lt window_def rotate_drop_take)
  next
    case eq
    show ?thesis using eq assms
      by (simp add: ring_put_eq window_def rotate_drop_take)
  next
    case gt
    show ?thesis using gt assms
      by (simp add: ring_put_gt window_def rotate_drop_take)
  qed
qed

lemma ring_put_length_nat:
  assumes "W < C" "length s \<le> C" "length buf = C" "W + length s \<noteq> C"
  shows "length (ring_put buf (int C) (int W) s) = C"
proof (cases "W + length s > C")
  case True
  then show ?thesis using assms by (simp add: ring_put_gt)
next
  case False
  then have "W + length s < C" using assms by simp
  then show ?thesis using assms by (simp add: ring_put_lt)
qed

lemma ring_put_length_boundary:
  assumes "W + length s = C" "length buf = C" "0 < C"
  shows "length (ring_put buf (int C) (int W) s) = C + length s"
  using assms by (simp add: ring_put_eq)


lemma ring_get_window:
  assumes "0 \<le> r" "r < cap" "0 \<le> n" "n \<le> cap" "r + n \<noteq> cap" "cap \<le> int (length buf)"
  shows "ring_get buf cap r n = window buf cap r n"
proof -
  have "0 \<le> cap" using assms by linarith
  then obtain R N C where e: "r = int R" "n = int N" "cap = int C"
    using assms(1,3) by (metis nat_0_le)
  have "R < C" "N \<le> C" "R + N \<noteq> C" "C \<le> length buf"
    using assms unfolding e by linarith+
  then show ?thesis unfolding e by (rule ring_get_window_nat)
qed

lemma ring_put_window:
  assumes "0 \<le> w" "w < cap" "int (length s) \<le> cap" "cap \<le> int (length buf)"
  shows "window (ring_put buf cap w s) cap w (int (length s)) = s"
proof -
  have "0 \<le> cap" using assms by linarith
  then obtain W C where e: "w = int W" "cap = int C"
    using assms(1) by (metis nat_0_le)
  have "W < C" "length s \<le> C" "C \<le> length buf"
    using assms unfolding e by linarith+
  then show ?thesis unfolding e by (rule ring_put_window_nat)
qed

lemma ring_put_keeps_capacity:
  assumes "0 \<le> w" "w < cap" "cap \<le> int (length buf)"
  shows "cap \<le> int (length (ring_put buf cap w s))"
proof -
  have "0 \<le> cap" using assms by linarith
  then obtain W C where e: "w = int W" "cap = int C"
    using assms(1) by (metis nat_0_le)
  show ?thesis using assms ring_put_keeps_capacity_nat [of W C buf s] unfolding e
    by simp
qed

lemma ring_put_length:
  assumes "0 \<le> w" "w < cap" "int (length s) \<le> cap" "int (length buf) = cap"
    "w + int (length s) \<noteq> cap"
  shows "int (length (ring_put buf cap w s)) = cap"
proof -
  have "0 \<le> cap" using assms by linarith
  then obtain W C where e: "w = int W" "cap = int C"
    using assms(1) by (metis nat_0_le)
  have "W + length s \<noteq> C" using assms unfolding e by linarith
  then show ?thesis using assms ring_put_length_nat [of W C s buf] unfolding e
    by simp
qed

lemma length_window:
  assumes "0 \<le> n" "n \<le> cap" "cap \<le> int (length buf)"
  shows "int (length (window buf cap r n)) = n"
  using assms by (simp add: window_def)

lemma put_input_ring:
  assumes "\<not> lock p" "input_buffer_size p \<noteq> 0"
  shows "put_input p d =
    (Inr (), p\<lparr>input_buffer :=
                 ring_put (input_buffer p) (input_buffer_size p) (input_buffer_w_index p) d,
               input_buffer_w_index :=
                 (input_buffer_w_index p + int (length d)) mod input_buffer_size p\<rparr>)"
  using assms by (cases p) (simp add: put_input_def ring_put_def Let_def)

lemma put_output_ring:
  assumes "\<not> lock p" "output_buffer_size p \<noteq> 0"
  shows "put_output p d =
    (Inr (), p\<lparr>output_buffer :=
                 ring_put (output_buffer p) (output_buffer_size p) (output_buffer_w_index p) d,
               output_buffer_w_index :=
                 (output_buffer_w_index p + int (length d)) mod output_buffer_size p\<rparr>)"
  using assms by (cases p) (simp add: put_output_def ring_put_def Let_def)

lemma get_input_ring:
  assumes "\<not> lock p" "input_buffer_size p \<noteq> 0"
  shows "get_input p n r =
    (Inr (ring_get (input_buffer p) (input_buffer_size p) r n,
          (r + n) mod input_buffer_size p), p)"
  using assms by (cases p) (simp add: get_input_def ring_get_def Let_def)

lemma get_output_ring:
  assumes "\<not> lock p" "output_buffer_size p \<noteq> 0"
  shows "get_output p n r =
    (Inr (ring_get (output_buffer p) (output_buffer_size p) r n,
          (r + n) mod output_buffer_size p), p)"
  using assms by (cases p) (simp add: get_output_def ring_get_def Let_def)

lemma input_dat_avail_free:
  assumes "\<not> lock p"
  shows "input_dat_avail p r =
    (Inr (if input_buffer_w_index p > r then input_buffer_w_index p - r
          else if input_buffer_w_index p < r
          then input_buffer_size p - r + input_buffer_w_index p else 0), p)"
  using assms by (cases p) (simp add: input_dat_avail_def Let_def)

lemma output_dat_avail_free:
  assumes "\<not> lock p"
  shows "output_dat_avail p r =
    (Inr (if output_buffer_w_index p > r then output_buffer_w_index p - r
          else if output_buffer_w_index p < r
          then output_buffer_size p - r + output_buffer_w_index p else 0), p)"
  using assms by (cases p) (simp add: output_dat_avail_def Let_def)

lemma avail_mod:
  fixes w r cap :: int
  assumes "0 \<le> r" "r < cap" "0 \<le> w" "w < cap"
  shows "(if w > r then w - r else if w < r then cap - r + w else 0) = (w - r) mod cap"
proof -
  consider "w > r" | "w < r" | "w = r" by linarith
  then show ?thesis
  proof cases
    case 1
    then show ?thesis using assms by simp
  next
    case 2
    then have "(w - r) mod cap = (w - r + cap) mod cap" by simp
    also have "\<dots> = w - r + cap"
    proof -
      have "0 \<le> w - r + cap" "w - r + cap < cap" using 2 assms by linarith+
      then show ?thesis by (rule mod_pos_pos_trivial)
    qed
    finally show ?thesis using 2 by simp
  next
    case 3
    then show ?thesis by simp
  qed
qed

section \<open>Properties of the circular buffers\<close>

lemmas port_eval = SerialPort_init_def put_input_def put_output_def get_input_def get_output_def
  input_dat_avail_def output_dat_avail_def Let_def slice_def slice_from_def slice_to_def
  set_slice_def set_slice_from_def adjust_index_def input_ready_def output_ready_def

lemma ready_init:
  "0 < a \<Longrightarrow> input_ready (SerialPort_init name baud a b)"
  "0 < b \<Longrightarrow> output_ready (SerialPort_init name baud a b)"
  by (simp_all add: SerialPort_init_def input_ready_def output_ready_def)

lemma input_ready_put_input: "input_ready p \<Longrightarrow> input_ready (snd (put_input p s))"
proof -
  assume a: "input_ready p"
  then have "\<not> lock p" "input_buffer_size p \<noteq> 0" by (simp_all add: input_ready_def)
  note eq = put_input_ring [OF this]
  have "input_buffer_size p \<le> int (length (ring_put (input_buffer p) (input_buffer_size p)
            (input_buffer_w_index p) s))"
    using a by (intro ring_put_keeps_capacity) (simp_all add: input_ready_def)
  then show ?thesis using a by (simp add: eq input_ready_def)
qed

lemma output_ready_put_output: "output_ready p \<Longrightarrow> output_ready (snd (put_output p s))"
proof -
  assume a: "output_ready p"
  then have "\<not> lock p" "output_buffer_size p \<noteq> 0" by (simp_all add: output_ready_def)
  note eq = put_output_ring [OF this]
  have "output_buffer_size p \<le> int (length (ring_put (output_buffer p) (output_buffer_size p)
            (output_buffer_w_index p) s))"
    using a by (intro ring_put_keeps_capacity) (simp_all add: output_ready_def)
  then show ?thesis using a by (simp add: eq output_ready_def)
qed

lemma ready_other_side:
  "input_ready p \<Longrightarrow> output_buffer_size p \<noteq> 0 \<Longrightarrow> input_ready (snd (put_output p s))"
  "output_ready p \<Longrightarrow> input_buffer_size p \<noteq> 0 \<Longrightarrow> output_ready (snd (put_input p s))"
  by (simp_all add: input_ready_def output_ready_def put_output_ring put_input_ring)

text \<open>
  C3, as the code has it. A write of \<open>s\<close>, no longer than the capacity, to an input buffer in
  working order returns normally. Seen from a cursor that stood at the write index before the
  write, \<open>input_dat_avail\<close> then reports the length of \<open>s\<close> when \<open>s\<close> is shorter than the
  capacity, and 0 when \<open>s\<close> fills the capacity: the write index has come back to the cursor.
  Unless the write ended exactly at the end of the buffer, \<open>get_input\<close> of the length of \<open>s\<close>
  at that cursor returns \<open>s\<close>, in two pieces when the bytes go round, and the new cursor is the
  write index.
\<close>

theorem put_input_then_read:
  assumes "input_ready p" "int (length s) \<le> input_buffer_size p"
  shows "fst (put_input p s) = Inr ()
     \<and> fst (input_dat_avail (snd (put_input p s)) (input_buffer_w_index p))
         = Inr (if int (length s) < input_buffer_size p then int (length s) else 0)
     \<and> (input_buffer_w_index p + int (length s) \<noteq> input_buffer_size p \<longrightarrow>
          fst (get_input (snd (put_input p s)) (int (length s)) (input_buffer_w_index p))
            = Inr (s, input_buffer_w_index (snd (put_input p s))))"
proof -
  let ?C = "input_buffer_size p" and ?w = "input_buffer_w_index p" and ?n = "int (length s)"
  have r: "\<not> lock p" "?C \<noteq> 0" "0 < ?C" "0 \<le> ?w" "?w < ?C" "?C \<le> int (length (input_buffer p))"
    using assms by (simp_all add: input_ready_def)
  note eq = put_input_ring [OF r(1,2)]
  let ?q = "snd (put_input p s)"
  have q: "\<not> lock ?q" "input_buffer_size ?q = ?C" "input_buffer_w_index ?q = (?w + ?n) mod ?C"
    "input_buffer ?q = ring_put (input_buffer p) ?C ?w s"
    using r by (simp_all add: eq)
  have 1: "fst (put_input p s) = Inr ()" by (simp add: eq)
  have w': "0 \<le> (?w + ?n) mod ?C" "(?w + ?n) mod ?C < ?C" using r by simp_all
  have "((?w + ?n) mod ?C - ?w) mod ?C = ?n mod ?C"
    by (simp add: mod_diff_left_eq)
  also have "\<dots> = (if ?n < ?C then ?n else 0)" using assms(2) by auto
  finally have m: "((?w + ?n) mod ?C - ?w) mod ?C = (if ?n < ?C then ?n else 0)" .
  have av: "(if (?w + ?n) mod ?C > ?w then (?w + ?n) mod ?C - ?w
             else if (?w + ?n) mod ?C < ?w then ?C - ?w + (?w + ?n) mod ?C else 0)
            = ((?w + ?n) mod ?C - ?w) mod ?C"
    using r(4,5) w' by (rule avail_mod)
  have 2: "fst (input_dat_avail ?q ?w) = Inr (if ?n < ?C then ?n else 0)"
    by (simp only: input_dat_avail_free [OF q(1)] fst_conv q(2,3) av m)
  have 3: "fst (get_input ?q ?n ?w) = Inr (s, input_buffer_w_index ?q)" if ne: "?w + ?n \<noteq> ?C"
  proof -
    have ge: "?C \<le> int (length (ring_put (input_buffer p) ?C ?w s))"
      using r by (intro ring_put_keeps_capacity) simp_all
    have "ring_get (ring_put (input_buffer p) ?C ?w s) ?C ?w ?n
            = window (ring_put (input_buffer p) ?C ?w s) ?C ?w ?n"
      using r assms(2) ne ge by (intro ring_get_window) simp_all
    also have "\<dots> = s" using r assms(2) by (intro ring_put_window) simp_all
    finally show ?thesis using r by (simp add: get_input_ring [OF q(1)] q)
  qed
  show ?thesis using 1 2 3 by blast
qed

theorem put_input_then_read_witness:
  "input_ready (snd (put_input (SerialPort_init ''/dev/ttyAMA0'' 115200 4 4) [9, 9, 9]))
   \<and> int (length [1, 2 :: byte])
       \<le> input_buffer_size (snd (put_input (SerialPort_init ''/dev/ttyAMA0'' 115200 4 4) [9, 9, 9]))
   \<and> fst (input_dat_avail
        (snd (put_input (snd (put_input (SerialPort_init ''/dev/ttyAMA0'' 115200 4 4) [9, 9, 9]))
               [1, 2])) 3) = Inr 2
   \<and> fst (get_input
        (snd (put_input (snd (put_input (SerialPort_init ''/dev/ttyAMA0'' 115200 4 4) [9, 9, 9]))
               [1, 2])) 2 3) = Inr ([1, 2], 1)"
  using put_input_then_read
    [of "snd (put_input (SerialPort_init ''/dev/ttyAMA0'' 115200 4 4) [9, 9, 9])" "[1, 2]"]
  by (simp add: port_eval)

text \<open>
  C3 as stated fails for a write that fills the capacity: on a new port of capacity 4, after
  four bytes are written, the cursor 0 sees no byte available, and reading four bytes there
  returns none.
\<close>

theorem put_input_full_lap_counterexample:
  "int (length [1, 2, 3, 4 :: byte]) \<le> input_buffer_size (SerialPort_init ''/dev/ttyAMA0'' 115200 4 4)
   \<and> input_buffer_w_index (SerialPort_init ''/dev/ttyAMA0'' 115200 4 4) = 0
   \<and> fst (input_dat_avail
             (snd (put_input (SerialPort_init ''/dev/ttyAMA0'' 115200 4 4) [1, 2, 3, 4])) 0)
       = Inr 0
   \<and> fst (get_input
             (snd (put_input (SerialPort_init ''/dev/ttyAMA0'' 115200 4 4) [1, 2, 3, 4])) 4 0)
       = Inr ([], 0)"
  by (simp add: port_eval)

text \<open>
  A write of at most the capacity to a buffer of exactly the capacity keeps the list at the
  capacity unless it ends exactly at the end of the buffer; there the list grows by the bytes
  written. The write index is the old one plus the number of bytes, modulo the capacity, in
  both cases.
\<close>

lemma put_input_length:
  assumes "input_ready p" "int (length (input_buffer p)) = input_buffer_size p"
    "int (length s) \<le> input_buffer_size p"
  shows "input_buffer_w_index (snd (put_input p s))
           = (input_buffer_w_index p + int (length s)) mod input_buffer_size p"
    and "input_buffer_w_index p + int (length s) \<noteq> input_buffer_size p
           \<Longrightarrow> int (length (input_buffer (snd (put_input p s)))) = input_buffer_size p"
proof -
  have r: "\<not> lock p" "input_buffer_size p \<noteq> 0" "0 \<le> input_buffer_w_index p"
    "input_buffer_w_index p < input_buffer_size p"
    using assms(1) by (simp_all add: input_ready_def)
  note eq = put_input_ring [OF r(1,2)]
  show "input_buffer_w_index (snd (put_input p s))
           = (input_buffer_w_index p + int (length s)) mod input_buffer_size p"
    by (simp add: eq)
  assume "input_buffer_w_index p + int (length s) \<noteq> input_buffer_size p"
  then have "int (length (ring_put (input_buffer p) (input_buffer_size p)
                 (input_buffer_w_index p) s)) = input_buffer_size p"
    using r assms(2,3) by (intro ring_put_length) simp_all
  then show "int (length (input_buffer (snd (put_input p s)))) = input_buffer_size p"
    by (simp add: eq)
qed

lemma put_output_length:
  assumes "output_ready p" "int (length (output_buffer p)) = output_buffer_size p"
    "int (length s) \<le> output_buffer_size p"
  shows "output_buffer_w_index (snd (put_output p s))
           = (output_buffer_w_index p + int (length s)) mod output_buffer_size p"
    and "output_buffer_w_index p + int (length s) \<noteq> output_buffer_size p
           \<Longrightarrow> int (length (output_buffer (snd (put_output p s)))) = output_buffer_size p"
proof -
  have r: "\<not> lock p" "output_buffer_size p \<noteq> 0" "0 \<le> output_buffer_w_index p"
    "output_buffer_w_index p < output_buffer_size p"
    using assms(1) by (simp_all add: output_ready_def)
  note eq = put_output_ring [OF r(1,2)]
  show "output_buffer_w_index (snd (put_output p s))
           = (output_buffer_w_index p + int (length s)) mod output_buffer_size p"
    by (simp add: eq)
  assume "output_buffer_w_index p + int (length s) \<noteq> output_buffer_size p"
  then have "int (length (ring_put (output_buffer p) (output_buffer_size p)
                 (output_buffer_w_index p) s)) = output_buffer_size p"
    using r assms(2,3) by (intro ring_put_length) simp_all
  then show "int (length (output_buffer (snd (put_output p s)))) = output_buffer_size p"
    by (simp add: eq)
qed

lemma put_input_at_boundary:
  assumes "input_ready p" "int (length (input_buffer p)) = input_buffer_size p"
    "input_buffer_w_index p + int (length s) = input_buffer_size p"
  shows "int (length (input_buffer (snd (put_input p s)))) = input_buffer_size p + int (length s)"
proof -
  have r: "\<not> lock p" "input_buffer_size p \<noteq> 0" "0 \<le> input_buffer_w_index p"
    "0 < input_buffer_size p"
    using assms(1) by (simp_all add: input_ready_def)
  obtain W C where e: "input_buffer_w_index p = int W" "input_buffer_size p = int C"
    using r(3,4) by (metis nat_0_le less_imp_le)
  have "W + length s = C" "length (input_buffer p) = C" "0 < C"
    using assms(2,3) r(4) unfolding e by linarith+
  then have "length (ring_put (input_buffer p) (int C) (int W) s) = C + length s"
    by (rule ring_put_length_boundary)
  then show ?thesis by (simp add: put_input_ring [OF r(1,2)] e)
qed

text \<open>With the default sizes, one write of 10000 bytes to a new port doubles the list.\<close>

lemma put_input_default_size_grows:
  "length (input_buffer
     (snd (put_input (SerialPort_init ''/dev/ttyAMA0'' 115200 10000 10000)
            (replicate 10000 97)))) = 20000"
proof -
  let ?p = "SerialPort_init ''/dev/ttyAMA0'' 115200 10000 10000"
  have r: "input_ready ?p" by (rule ready_init) simp
  have l: "int (length (input_buffer ?p)) = input_buffer_size ?p"
    by (simp add: SerialPort_init_def)
  have w: "input_buffer_w_index ?p + int (length (replicate 10000 (97 :: byte))) = input_buffer_size ?p"
    by (simp add: SerialPort_init_def)
  from put_input_at_boundary [OF r l w]
  have "int (length (input_buffer (snd (put_input ?p (replicate 10000 97))))) = 20000"
    by (simp add: SerialPort_init_def)
  then show ?thesis by linarith
qed

text \<open>
  C4. A write that ends exactly at the end of the buffer does not keep the storage at the
  capacity: on a port of capacity 4, two bytes written at write index 2 leave the list with six
  elements, on the input side and on the output side alike.
\<close>

theorem put_at_boundary_grows:
  "length (input_buffer (SerialPort_init ''/dev/ttyAMA0'' 115200 4 4)) = 4
   \<and> length (input_buffer
        (snd (put_input (snd (put_input (SerialPort_init ''/dev/ttyAMA0'' 115200 4 4) [1, 2]))
               [3, 4]))) = 6
   \<and> length (output_buffer
        (snd (put_output (snd (put_output (SerialPort_init ''/dev/ttyAMA0'' 115200 4 4) [1, 2]))
               [3, 4]))) = 6"
  by (simp add: port_eval)

text \<open>
  C5. With the lock free, the write index within the capacity and a read cursor \<open>r\<close> within
  the capacity, \<open>input_dat_avail\<close> returns the write index minus \<open>r\<close> modulo the capacity, which
  is 0 whenever \<open>r\<close> is the write index; \<open>output_dat_avail\<close> does the same on the output buffer.
\<close>

theorem dat_avail_modular:
  "(\<not> lock p \<and> 0 \<le> r \<and> r < input_buffer_size p
      \<and> 0 \<le> input_buffer_w_index p \<and> input_buffer_w_index p < input_buffer_size p
    \<longrightarrow> fst (input_dat_avail p r) = Inr ((input_buffer_w_index p - r) mod input_buffer_size p)
        \<and> (r = input_buffer_w_index p \<longrightarrow> fst (input_dat_avail p r) = Inr 0))
   \<and> (\<not> lock p \<and> 0 \<le> r \<and> r < output_buffer_size p
      \<and> 0 \<le> output_buffer_w_index p \<and> output_buffer_w_index p < output_buffer_size p
    \<longrightarrow> fst (output_dat_avail p r) = Inr ((output_buffer_w_index p - r) mod output_buffer_size p)
        \<and> (r = output_buffer_w_index p \<longrightarrow> fst (output_dat_avail p r) = Inr 0))"
proof (intro conjI impI)
  assume a: "\<not> lock p \<and> 0 \<le> r \<and> r < input_buffer_size p
      \<and> 0 \<le> input_buffer_w_index p \<and> input_buffer_w_index p < input_buffer_size p"
  then show "fst (input_dat_avail p r) = Inr ((input_buffer_w_index p - r) mod input_buffer_size p)"
    using avail_mod [of r "input_buffer_size p" "input_buffer_w_index p"]
    by (simp add: input_dat_avail_free)
  assume "r = input_buffer_w_index p"
  then show "fst (input_dat_avail p r) = Inr 0"
    using a by (simp add: input_dat_avail_free)
next
  assume a: "\<not> lock p \<and> 0 \<le> r \<and> r < output_buffer_size p
      \<and> 0 \<le> output_buffer_w_index p \<and> output_buffer_w_index p < output_buffer_size p"
  then show "fst (output_dat_avail p r) = Inr ((output_buffer_w_index p - r) mod output_buffer_size p)"
    using avail_mod [of r "output_buffer_size p" "output_buffer_w_index p"]
    by (simp add: output_dat_avail_free)
  assume "r = output_buffer_w_index p"
  then show "fst (output_dat_avail p r) = Inr 0"
    using a by (simp add: output_dat_avail_free)
qed

theorem dat_avail_modular_witness:
  "fst (input_dat_avail
        (snd (put_input (SerialPort_init ''/dev/ttyAMA0'' 115200 4 4) [1])) 3) = Inr 2
   \<and> fst (output_dat_avail
        (snd (put_output (SerialPort_init ''/dev/ttyAMA0'' 115200 4 4) [1])) 1) = Inr 0"
  using dat_avail_modular
    [of "snd (put_input (SerialPort_init ''/dev/ttyAMA0'' 115200 4 4) [1])" 3]
    dat_avail_modular
    [of "snd (put_output (SerialPort_init ''/dev/ttyAMA0'' 115200 4 4) [1])" 1]
  by (simp add: port_eval)

text \<open>
  C6, as the code has it. \<open>get_input\<close> and \<open>get_output\<close> do not look at the write index: for
  a cursor \<open>r\<close> within the capacity and a size \<open>n\<close> from 0 to the capacity, the read not ending
  exactly at the end of the buffer, they return the \<open>n\<close> stored bytes found from \<open>r\<close> on, going
  round at the capacity, and the cursor moved by \<open>n\<close> modulo the capacity, whatever number of
  bytes is available at \<open>r\<close>. Clamping a request to the bytes available is left to the caller.
\<close>

theorem get_returns_window:
  "(input_ready p \<and> 0 \<le> r \<and> r < input_buffer_size p \<and> 0 \<le> n \<and> n \<le> input_buffer_size p
      \<and> r + n \<noteq> input_buffer_size p
    \<longrightarrow> fst (get_input p n r)
          = Inr (window (input_buffer p) (input_buffer_size p) r n,
                 (r + n) mod input_buffer_size p)
        \<and> int (length (window (input_buffer p) (input_buffer_size p) r n)) = n)
   \<and> (output_ready p \<and> 0 \<le> r \<and> r < output_buffer_size p \<and> 0 \<le> n
      \<and> n \<le> output_buffer_size p \<and> r + n \<noteq> output_buffer_size p
    \<longrightarrow> fst (get_output p n r)
          = Inr (window (output_buffer p) (output_buffer_size p) r n,
                 (r + n) mod output_buffer_size p)
        \<and> int (length (window (output_buffer p) (output_buffer_size p) r n)) = n)"
proof (intro conjI impI)
  assume a: "input_ready p \<and> 0 \<le> r \<and> r < input_buffer_size p \<and> 0 \<le> n
    \<and> n \<le> input_buffer_size p \<and> r + n \<noteq> input_buffer_size p"
  then have r: "\<not> lock p" "input_buffer_size p \<noteq> 0"
    "input_buffer_size p \<le> int (length (input_buffer p))"
    by (simp_all add: input_ready_def)
  have "ring_get (input_buffer p) (input_buffer_size p) r n
          = window (input_buffer p) (input_buffer_size p) r n"
    using a r by (intro ring_get_window) simp_all
  then show "fst (get_input p n r)
          = Inr (window (input_buffer p) (input_buffer_size p) r n,
                 (r + n) mod input_buffer_size p)"
    by (simp add: get_input_ring [OF r(1,2)])
  show "int (length (window (input_buffer p) (input_buffer_size p) r n)) = n"
    using a r by (intro length_window) simp_all
next
  assume a: "output_ready p \<and> 0 \<le> r \<and> r < output_buffer_size p \<and> 0 \<le> n
    \<and> n \<le> output_buffer_size p \<and> r + n \<noteq> output_buffer_size p"
  then have r: "\<not> lock p" "output_buffer_size p \<noteq> 0"
    "output_buffer_size p \<le> int (length (output_buffer p))"
    by (simp_all add: output_ready_def)
  have "ring_get (output_buffer p) (output_buffer_size p) r n
          = window (output_buffer p) (output_buffer_size p) r n"
    using a r by (intro ring_get_window) simp_all
  then show "fst (get_output p n r)
          = Inr (window (output_buffer p) (output_buffer_size p) r n,
                 (r + n) mod output_buffer_size p)"
    by (simp add: get_output_ring [OF r(1,2)])
  show "int (length (window (output_buffer p) (output_buffer_size p) r n)) = n"
    using a r by (intro length_window) simp_all
qed

theorem get_returns_window_witness:
  "input_ready (snd (put_input (SerialPort_init ''/dev/ttyAMA0'' 115200 4 4) [1, 2, 3]))
   \<and> fst (get_input (snd (put_input (SerialPort_init ''/dev/ttyAMA0'' 115200 4 4) [1, 2, 3]))
           3 2) = Inr ([3, 0, 1], 1)
   \<and> output_ready (snd (put_output (SerialPort_init ''/dev/ttyAMA0'' 115200 4 4) [1, 2, 3]))
   \<and> fst (get_output (snd (put_output (SerialPort_init ''/dev/ttyAMA0'' 115200 4 4) [1, 2, 3]))
           3 2) = Inr ([3, 0, 1], 1)"
  using get_returns_window
    [of "snd (put_input (SerialPort_init ''/dev/ttyAMA0'' 115200 4 4) [1, 2, 3])" 2 3]
   get_returns_window
    [of "snd (put_output (SerialPort_init ''/dev/ttyAMA0'' 115200 4 4) [1, 2, 3])" 2 3]
  by (simp add: port_eval window_def)

text \<open>
  C6 as stated fails on a new port of capacity 4: no byte is available at cursor 0, and a read
  of two bytes there returns two bytes.
\<close>

theorem get_input_unclamped_counterexample:
  "fst (input_dat_avail (SerialPort_init ''/dev/ttyAMA0'' 115200 4 4) 0) = Inr 0
   \<and> fst (get_input (SerialPort_init ''/dev/ttyAMA0'' 115200 4 4) 2 0) = Inr ([0, 0], 2)"
  by (simp add: port_eval eval_nat_numeral)

lemma stored_get_input: "stored (snd (get_input p n r)) = stored p"
  by (simp add: get_input_def stored_def Let_def)

lemma stored_get_output: "stored (snd (get_output p n r)) = stored p"
  by (simp add: get_output_def stored_def Let_def)

lemma stored_input_dat_avail: "stored (snd (input_dat_avail p r)) = stored p"
  by (simp add: input_dat_avail_def stored_def Let_def)

lemma stored_output_dat_avail: "stored (snd (output_dat_avail p r)) = stored p"
  by (simp add: output_dat_avail_def stored_def Let_def)

lemma input_dat_avail_again:
  "fst (input_dat_avail (snd (input_dat_avail p r)) r) = fst (input_dat_avail p r)"
  by (simp add: input_dat_avail_def Let_def)

lemma output_dat_avail_again:
  "fst (output_dat_avail (snd (output_dat_avail p r)) r) = fst (output_dat_avail p r)"
  by (simp add: output_dat_avail_def Let_def)

text \<open>
  C9. \<open>get_input\<close>, \<open>get_output\<close>, \<open>input_dat_avail\<close> and \<open>output_dat_avail\<close> leave the
  stored bytes and the write indices of both buffers as they were, for every cursor and size
  and whatever the call returns; an availability query repeated at the same cursor returns what
  the first one returned.
\<close>

theorem reads_leave_buffer:
  "stored (snd (get_input p n r)) = stored p
   \<and> stored (snd (get_output p n r)) = stored p
   \<and> stored (snd (input_dat_avail p r)) = stored p
   \<and> stored (snd (output_dat_avail p r)) = stored p
   \<and> fst (input_dat_avail (snd (input_dat_avail p r)) r) = fst (input_dat_avail p r)
   \<and> fst (output_dat_avail (snd (output_dat_avail p r)) r) = fst (output_dat_avail p r)"
  by (simp only: stored_get_input stored_get_output stored_input_dat_avail
        stored_output_dat_avail input_dat_avail_again output_dat_avail_again simp_thms)

section \<open>Properties of the session\<close>

lemma char_eq_char_of: "(c = char_of (n::nat)) = (of_char c = n mod 256)"
  using char_of_eq_iff [of n c] by (auto simp add: take_bit_eq_mod)

lemma char_of_eq_char: "(char_of (n::nat) = c) = (of_char c = n mod 256)"
proof
  assume "char_of n = c"
  then have "c = char_of n" by (rule sym)
  then show "of_char c = n mod 256" by (simp only: char_eq_char_of)
next
  assume "of_char c = n mod 256"
  then have "c = char_of n" by (simp only: char_eq_char_of)
  then show "char_of n = c" by (rule sym)
qed

lemmas session_eval = PigpioClient_init_def PigpioSerialInstance_init_def send_words_def
  open_instance_def close_instance_def write_request_def read_request_def
  data_available_request_def serial_open_def run_frame_def getitem_def unpack_I_def
  pack_IIII_def pack_IIIi_def is_uint32_def decode_ascii_def decode_utf8_def bind_def
  PI_CMD_SERO_def PI_CMD_SERC_def PI_CMD_SERR_def PI_CMD_SERW_def PI_CMD_SERDA_def
  cont_def add_serialport_def run_def char_eq_char_of char_of_eq_char

lemmas cmd_defs = PI_CMD_SERO_def PI_CMD_SERC_def PI_CMD_SERR_def PI_CMD_SERW_def
  PI_CMD_SERDA_def PI_CMD_SERRB_def PI_CMD_SERWB_def


lemma find_serialport_Some:
  "find_serialport ps name b i = Some k
     \<Longrightarrow> i \<le> k \<and> k - i < length ps \<and> port (ps ! (k - i)) = name \<and> baudrate (ps ! (k - i)) = b"
proof (induction ps arbitrary: i)
  case Nil
  then show ?case by simp
next
  case (Cons sp ps)
  show ?case
  proof (cases "port sp = name \<and> baudrate sp = b")
    case True
    then show ?thesis using Cons.prems by auto
  next
    case False
    then have "find_serialport ps name b (Suc i) = Some k" using Cons.prems by auto
    from Cons.IH [OF this] show ?thesis by (auto simp: Suc_diff_le)
  qed
qed






lemma getitem_nat: "getitem xs (int i) = (if i < length xs then Inr i else Inl IndexError)"
  by (simp add: getitem_def)

lemma getitem_uint:
  "getitem xs (uint (w :: 32 word)) = (if unat w < length xs then Inr (unat w) else Inl IndexError)"
  unfolding uint_nat by (rule getitem_nat)




text \<open>
  C2. On a session without instances, a close, write, read or data-available frame for handle 0
  raises IndexError. The loop does not handle it: the run ends with that exception, nothing is
  sent, and a valid open frame that follows is never answered.
\<close>

theorem bad_handle_ends_session:
  "fst (run_frame \<lparr>hdr_cmd = 77, hdr_p1 = 0, hdr_p2 = [0, 0, 0, 0], hdr_p3 = 0, payload = []\<rparr>
         (PigpioClient_init (add_serialport [] ''/dev/ttyAMA0'' 115200))) = Inl IndexError
   \<and> fst (run_frame \<lparr>hdr_cmd = 81, hdr_p1 = 0, hdr_p2 = [0, 0, 0, 0], hdr_p3 = 1, payload = [97]\<rparr>
         (PigpioClient_init (add_serialport [] ''/dev/ttyAMA0'' 115200))) = Inl IndexError
   \<and> fst (run_frame \<lparr>hdr_cmd = 80, hdr_p1 = 0, hdr_p2 = [1, 0, 0, 0], hdr_p3 = 0, payload = []\<rparr>
         (PigpioClient_init (add_serialport [] ''/dev/ttyAMA0'' 115200))) = Inl IndexError
   \<and> fst (run_frame \<lparr>hdr_cmd = 82, hdr_p1 = 0, hdr_p2 = [0, 0, 0, 0], hdr_p3 = 0, payload = []\<rparr>
         (PigpioClient_init (add_serialport [] ''/dev/ttyAMA0'' 115200))) = Inl IndexError
   \<and> fst (run
         [Frame \<lparr>hdr_cmd = 82, hdr_p1 = 0, hdr_p2 = [0, 0, 0, 0], hdr_p3 = 0, payload = []\<rparr>,
          Frame \<lparr>hdr_cmd = 76, hdr_p1 = 115200, hdr_p2 = [0, 0, 0, 0], hdr_p3 = 12,
                  payload = [47, 100, 101, 118, 47, 116, 116, 121, 65, 77, 65, 48]\<rparr>]
         (PigpioClient_init (add_serialport [] ''/dev/ttyAMA0'' 115200))) = Some IndexError
   \<and> main_conn (snd (run
         [Frame \<lparr>hdr_cmd = 82, hdr_p1 = 0, hdr_p2 = [0, 0, 0, 0], hdr_p3 = 0, payload = []\<rparr>,
          Frame \<lparr>hdr_cmd = 76, hdr_p1 = 115200, hdr_p2 = [0, 0, 0, 0], hdr_p3 = 12,
                  payload = [47, 100, 101, 118, 47, 116, 116, 121, 65, 77, 65, 48]\<rparr>]
         (PigpioClient_init (add_serialport [] ''/dev/ttyAMA0'' 115200)))) = []"
  by (simp add: session_eval SerialPort_init_def)

text \<open>A complete frame with any other command number, 78 and 79 included, is only logged.\<close>

lemma unknown_command_only_logs:
  assumes "uint (hdr_cmd f) \<notin> {PI_CMD_SERO, PI_CMD_SERC, PI_CMD_SERR, PI_CMD_SERW, PI_CMD_SERDA}"
    and "complete f"
  shows "fst (run_frame f s) = Inr ()
    \<and> main_conn (snd (run_frame f s)) = main_conn s
    \<and> serial_instances (snd (run_frame f s)) = serial_instances s
    \<and> serialports (snd (run_frame f s)) = serialports s
    \<and> log (snd (run_frame f s)) = log s @ [DEBUG, DEBUG, DEBUG, DEBUG, DEBUG, WARNING]"
  using assms by (auto simp add: run_frame_def complete_def Let_def)

lemma input_dat_avail_eq:
  "\<not> lock p \<Longrightarrow> input_dat_avail p r
     = (Inr (dat_avail (input_buffer_w_index p) (input_buffer_size p) r), p)"
  by (simp add: input_dat_avail_free dat_avail_def)

lemma read_request_free:
  assumes k: "serialport (serial_instances s ! h) < length (serialports s)"
    and q: "\<not> lock (serialports s ! serialport (serial_instances s ! h))"
      "input_buffer_size (serialports s ! serialport (serial_instances s ! h)) \<noteq> 0"
  shows "read_request s h sz =
    (let inst = serial_instances s ! h; q = serialports s ! serialport inst;
         r = input_buffer_r_index inst;
         avail = dat_avail (input_buffer_w_index q) (input_buffer_size q) r;
         n = (if sz > avail then avail else sz);
         to_send = ring_get (input_buffer q) (input_buffer_size q) r n;
         s1 = s\<lparr>serial_instances := (serial_instances s)
                 [h := inst\<lparr>input_buffer_r_index := (r + n) mod input_buffer_size q\<rparr>]\<rparr>
     in if \<not> utf8_valid to_send then (Inl UnicodeDecodeError, s1)
        else if \<not> is_uint32 (int (length to_send))
        then (Inl StructError, s1\<lparr>log := log s @ [INFO]\<rparr>)
        else (Inr (), s1\<lparr>log := log s @ [INFO],
                         main_conn := main_conn s @ [Words 0 0 0 (int (length to_send)),
                                                     Raw to_send]\<rparr>))"
  using k
  by (simp add: read_request_def input_dat_avail_eq [OF q(1)] get_input_ring [OF q]
      Let_def decode_utf8_def send_words_def pack_IIII_def is_uint32_def)



lemma put_output_fst:
  "\<not> lock p \<Longrightarrow> output_buffer_size p \<noteq> 0 \<Longrightarrow> fst (put_output p d) = Inr ()"
  by (simp add: put_output_ring)

lemma write_request_free:
  assumes q: "\<not> lock (serialports s ! serialport (serial_instances s ! h))"
      "output_buffer_size (serialports s ! serialport (serial_instances s ! h)) \<noteq> 0"
    and d: "4 \<le> length data"
  shows "write_request s h data =
    (let inst = serial_instances s ! h; k = serialport inst;
         s1 = s\<lparr>serialports := (serialports s)
                 [k := snd (put_output (serialports s ! k) (drop 4 data))]\<rparr>
     in if \<not> utf8_valid (drop 4 data) then (Inl UnicodeDecodeError, s1)
        else if \<not> is_uint32 (handle_id inst)
        then (Inl StructError, s1\<lparr>log := log s @ [INFO]\<rparr>)
        else (Inr (), s1\<lparr>log := log s @ [INFO],
                         main_conn := main_conn s @ [Words 0 0 0 (handle_id inst)]\<rparr>))"
  using d put_output_fst [OF q, of "drop 4 data"]
  by (simp add: write_request_def Let_def case_prod_unfold decode_utf8_def send_words_def
      pack_IIII_def is_uint32_def)




text \<open>
  When the available bytes end exactly at the end of the buffer, \<open>get_input\<close> returns none
  of them: the response announces 0 bytes while the cursor moves past the two that waited.
\<close>

lemma SERR_at_boundary_returns_nothing:
  "fst (input_dat_avail
          (snd (put_input (snd (put_input (SerialPort_init ''/dev/ttyAMA0'' 115200 4 4)
                  [104, 105])) [106, 107])) 2) = Inr 2
   \<and> run_frame
        \<lparr>hdr_cmd = 80, hdr_p1 = 0, hdr_p2 = [5, 0, 0, 0], hdr_p3 = 0, payload = []\<rparr>
        \<lparr>serialports =
            [snd (put_input (snd (put_input (SerialPort_init ''/dev/ttyAMA0'' 115200 4 4)
                   [104, 105])) [106, 107])],
          serial_instances =
            [\<lparr>serialport = 0, handle_id = 0, input_buffer_r_index = 2,
              output_buffer_r_index = 0\<rparr>],
          main_conn = [], notification_conn = [], log = [], ext = Unbound\<rparr>
      = (Inr (),
         \<lparr>serialports =
            [snd (put_input (snd (put_input (SerialPort_init ''/dev/ttyAMA0'' 115200 4 4)
                   [104, 105])) [106, 107])],
          serial_instances =
            [\<lparr>serialport = 0, handle_id = 0, input_buffer_r_index = 0,
              output_buffer_r_index = 0\<rparr>],
          main_conn = [Words 0 0 0 0, Raw []], notification_conn = [],
          log = [DEBUG, DEBUG, DEBUG, DEBUG, DEBUG, INFO], ext = Unbound\<rparr>)"
  by (simp add: port_eval session_eval)

text \<open>
  C10. For an existing instance on a port whose lock is free: a write frame whose extension
  is not valid UTF-8 has its bytes put into the output buffer and then ends with
  UnicodeDecodeError, nothing being sent; a read frame for which the bytes read from the input
  buffer are not valid UTF-8 moves the cursor and then ends with UnicodeDecodeError, nothing
  being sent. In both cases \<open>main_conn\<close> is as before the frame.
\<close>

theorem non_utf8_payload_no_response:
  assumes h: "unat (hdr_p1 f) < length (serial_instances s)"
    and inst: "inst = serial_instances s ! unat (hdr_p1 f)"
    and k: "serialport inst < length (serialports s)"
    and q: "q = serialports s ! serialport inst" "\<not> lock q"
    and p2: "length (hdr_p2 f) = 4"
  shows "(uint (hdr_cmd f) = PI_CMD_SERW \<and> hdr_p3 f \<noteq> 0 \<and> length (payload f) = unat (hdr_p3 f)
        \<and> output_buffer_size q \<noteq> 0 \<and> \<not> utf8_valid (payload f)
      \<longrightarrow> fst (put_output q (payload f)) = Inr ()
        \<and> run_frame f s =
            (Inl UnicodeDecodeError,
             s\<lparr>ext := Bytes (payload f), log := log s @ [DEBUG, DEBUG, DEBUG, DEBUG, DEBUG],
               serialports := (serialports s)
                 [serialport inst := snd (put_output q (payload f))]\<rparr>))
    \<and> (uint (hdr_cmd f) = PI_CMD_SERR \<and> hdr_p3 f = 0 \<and> input_buffer_size q \<noteq> 0
        \<and> fst (input_dat_avail q (input_buffer_r_index inst)) = Inr avail
        \<and> fst (get_input q (if le_uint (hdr_p2 f) > avail then avail else le_uint (hdr_p2 f))
                  (input_buffer_r_index inst)) = Inr (to_send, goal_index)
        \<and> \<not> utf8_valid to_send
      \<longrightarrow> run_frame f s =
            (Inl UnicodeDecodeError,
             s\<lparr>log := log s @ [DEBUG, DEBUG, DEBUG, DEBUG, DEBUG],
               serial_instances := (serial_instances s)
                 [unat (hdr_p1 f) := inst\<lparr>input_buffer_r_index := goal_index\<rparr>]\<rparr>))"
proof (intro conjI impI)
  assume a: "uint (hdr_cmd f) = PI_CMD_SERW \<and> hdr_p3 f \<noteq> 0
    \<and> length (payload f) = unat (hdr_p3 f)
    \<and> output_buffer_size q \<noteq> 0 \<and> \<not> utf8_valid (payload f)"
  let ?s1 = "s\<lparr>ext := Bytes (payload f), log := log s @ [DEBUG, DEBUG, DEBUG, DEBUG, DEBUG]\<rparr>"
  show "fst (put_output q (payload f)) = Inr ()"
    using q(2) a by (simp add: put_output_fst)
  have rf: "run_frame f s = write_request ?s1 (unat (hdr_p1 f)) (hdr_p2 f @ payload f)"
    using a h by (simp add: run_frame_def Let_def cmd_defs getitem_uint)
  have "write_request ?s1 (unat (hdr_p1 f)) (hdr_p2 f @ payload f) =
      (Inl UnicodeDecodeError,
       s\<lparr>ext := Bytes (payload f), log := log s @ [DEBUG, DEBUG, DEBUG, DEBUG, DEBUG],
               serialports := (serialports s)
                 [serialport inst := snd (put_output q (payload f))]\<rparr>)"
    using write_request_free [of ?s1 "unat (hdr_p1 f)" "hdr_p2 f @ payload f"] q(2) a p2
    by (simp add: Let_def inst [symmetric] q(1) [symmetric])
  then show "run_frame f s =
            (Inl UnicodeDecodeError,
             s\<lparr>ext := Bytes (payload f), log := log s @ [DEBUG, DEBUG, DEBUG, DEBUG, DEBUG],
               serialports := (serialports s)
                 [serialport inst := snd (put_output q (payload f))]\<rparr>)"
    using rf by simp
next
  assume a: "uint (hdr_cmd f) = PI_CMD_SERR \<and> hdr_p3 f = 0 \<and> input_buffer_size q \<noteq> 0
        \<and> fst (input_dat_avail q (input_buffer_r_index inst)) = Inr avail
        \<and> fst (get_input q (if le_uint (hdr_p2 f) > avail then avail else le_uint (hdr_p2 f))
                  (input_buffer_r_index inst)) = Inr (to_send, goal_index)
        \<and> \<not> utf8_valid to_send"
  let ?s1 = "s\<lparr>log := log s @ [DEBUG, DEBUG, DEBUG, DEBUG, DEBUG]\<rparr>"
  let ?r = "input_buffer_r_index inst"
  let ?n = "if le_uint (hdr_p2 f) > avail then avail else le_uint (hdr_p2 f)"
  have rf: "run_frame f s = read_request ?s1 (unat (hdr_p1 f)) (le_uint (hdr_p2 f))"
    using a h p2 by (simp add: run_frame_def Let_def cmd_defs unpack_I_def getitem_uint)
  have av: "dat_avail (input_buffer_w_index q) (input_buffer_size q) ?r = avail"
    using a q(2) by (simp add: input_dat_avail_eq)
  have sz: "input_buffer_size q \<noteq> 0" using a by simp
  have gi: "fst (get_input q ?n ?r) = Inr (to_send, goal_index)" using a by simp
  have g: "ring_get (input_buffer q) (input_buffer_size q) ?r ?n = to_send"
    "(?r + ?n) mod input_buffer_size q = goal_index"
    using gi unfolding get_input_ring [OF q(2) sz] by simp_all
  have "read_request ?s1 (unat (hdr_p1 f)) (le_uint (hdr_p2 f)) =
     (Inl UnicodeDecodeError,
             s\<lparr>log := log s @ [DEBUG, DEBUG, DEBUG, DEBUG, DEBUG],
               serial_instances := (serial_instances s)
                 [unat (hdr_p1 f) := inst\<lparr>input_buffer_r_index := goal_index\<rparr>]\<rparr>)"
    using read_request_free [of ?s1 "unat (hdr_p1 f)" "le_uint (hdr_p2 f)"] k q(2) sz g a av
    by (simp add: Let_def inst q(1) cong: if_cong)
  then show "run_frame f s =
            (Inl UnicodeDecodeError,
             s\<lparr>log := log s @ [DEBUG, DEBUG, DEBUG, DEBUG, DEBUG],
               serial_instances := (serial_instances s)
                 [unat (hdr_p1 f) := inst\<lparr>input_buffer_r_index := goal_index\<rparr>]\<rparr>)"
    using rf by simp
qed

theorem non_utf8_payload_no_response_witness:
  "\<not> utf8_valid [255]
   \<and> run_frame
        \<lparr>hdr_cmd = 81, hdr_p1 = 0, hdr_p2 = [1, 0, 0, 0], hdr_p3 = 1, payload = [255]\<rparr>
        \<lparr>serialports = [SerialPort_init ''/dev/ttyAMA0'' 115200 4 4],
          serial_instances =
            [\<lparr>serialport = 0, handle_id = 0, input_buffer_r_index = 0,
              output_buffer_r_index = 0\<rparr>],
          main_conn = [Words 0 0 0 0], notification_conn = [Words 10 0 0 0], log = [],
          ext = Str ''/dev/ttyAMA0''\<rparr>
      = (Inl UnicodeDecodeError,
         \<lparr>serialports = [snd (put_output (SerialPort_init ''/dev/ttyAMA0'' 115200 4 4) [255])],
          serial_instances =
            [\<lparr>serialport = 0, handle_id = 0, input_buffer_r_index = 0,
              output_buffer_r_index = 0\<rparr>],
          main_conn = [Words 0 0 0 0], notification_conn = [Words 10 0 0 0],
          log = [DEBUG, DEBUG, DEBUG, DEBUG, DEBUG], ext = Bytes [255]\<rparr>)
   \<and> run_frame
        \<lparr>hdr_cmd = 80, hdr_p1 = 0, hdr_p2 = [5, 0, 0, 0], hdr_p3 = 0, payload = []\<rparr>
        \<lparr>serialports = [snd (put_input (SerialPort_init ''/dev/ttyAMA0'' 115200 4 4) [255])],
          serial_instances =
            [\<lparr>serialport = 0, handle_id = 0, input_buffer_r_index = 0,
              output_buffer_r_index = 0\<rparr>],
          main_conn = [Words 0 0 0 0], notification_conn = [Words 10 0 0 0], log = [],
          ext = Str ''/dev/ttyAMA0''\<rparr>
      = (Inl UnicodeDecodeError,
         \<lparr>serialports = [snd (put_input (SerialPort_init ''/dev/ttyAMA0'' 115200 4 4) [255])],
          serial_instances =
            [\<lparr>serialport = 0, handle_id = 0, input_buffer_r_index = 1,
              output_buffer_r_index = 0\<rparr>],
          main_conn = [Words 0 0 0 0], notification_conn = [Words 10 0 0 0],
          log = [DEBUG, DEBUG, DEBUG, DEBUG, DEBUG], ext = Str ''/dev/ttyAMA0''\<rparr>)"
proof -
  let ?inst = "\<lparr>serialport = 0, handle_id = 0, input_buffer_r_index = 0,
                output_buffer_r_index = 0\<rparr>"
  let ?p = "SerialPort_init ''/dev/ttyAMA0'' 115200 4 4"
  let ?q = "snd (put_input ?p [255])"
  let ?fw = "\<lparr>hdr_cmd = 81, hdr_p1 = 0, hdr_p2 = [1, 0, 0, 0], hdr_p3 = 1, payload = [255]\<rparr>"
  let ?fr = "\<lparr>hdr_cmd = 80, hdr_p1 = 0, hdr_p2 = [5, 0, 0, 0], hdr_p3 = 0, payload = []\<rparr>"
  let ?sw = "\<lparr>serialports = [?p], serial_instances = [?inst],
          main_conn = [Words 0 0 0 0], notification_conn = [Words 10 0 0 0], log = [],
          ext = Str ''/dev/ttyAMA0''\<rparr>"
  let ?sr = "\<lparr>serialports = [?q], serial_instances = [?inst],
          main_conn = [Words 0 0 0 0], notification_conn = [Words 10 0 0 0], log = [],
          ext = Str ''/dev/ttyAMA0''\<rparr>"
  have nv: "\<not> utf8_valid [255]" by simp
  have qv: "?q = \<lparr>port = ''/dev/ttyAMA0'', baudrate = 115200, input_buffer_size = 4,
      output_buffer_size = 4, input_buffer_w_index = 1, output_buffer_w_index = 0,
      input_buffer = [255, 0, 0, 0], output_buffer = [0, 0, 0, 0], lock = False\<rparr>"
    by (simp add: port_eval eval_nat_numeral)
  have w: "(uint (hdr_cmd ?fw) = PI_CMD_SERW \<and> hdr_p3 ?fw \<noteq> 0
        \<and> length (payload ?fw) = unat (hdr_p3 ?fw)
        \<and> output_buffer_size ?p \<noteq> 0 \<and> \<not> utf8_valid (payload ?fw)
      \<longrightarrow> fst (put_output ?p (payload ?fw)) = Inr ()
        \<and> run_frame ?fw ?sw =
            (Inl UnicodeDecodeError,
             ?sw\<lparr>ext := Bytes (payload ?fw), log := log ?sw @ [DEBUG, DEBUG, DEBUG, DEBUG, DEBUG],
               serialports := (serialports ?sw)
                 [serialport ?inst := snd (put_output ?p (payload ?fw))]\<rparr>))
    \<and> (uint (hdr_cmd ?fw) = PI_CMD_SERR \<and> hdr_p3 ?fw = 0 \<and> input_buffer_size ?p \<noteq> 0
        \<and> fst (input_dat_avail ?p (input_buffer_r_index ?inst)) = Inr 0
        \<and> fst (get_input ?p (if le_uint (hdr_p2 ?fw) > 0 then 0 else le_uint (hdr_p2 ?fw))
                  (input_buffer_r_index ?inst)) = Inr ([], 0)
        \<and> \<not> utf8_valid []
      \<longrightarrow> run_frame ?fw ?sw =
            (Inl UnicodeDecodeError,
             ?sw\<lparr>log := log ?sw @ [DEBUG, DEBUG, DEBUG, DEBUG, DEBUG],
               serial_instances := (serial_instances ?sw)
                 [unat (hdr_p1 ?fw) := ?inst\<lparr>input_buffer_r_index := 0\<rparr>]\<rparr>))"
    by (rule non_utf8_payload_no_response) (simp_all add: SerialPort_init_def)
  have r: "(uint (hdr_cmd ?fr) = PI_CMD_SERW \<and> hdr_p3 ?fr \<noteq> 0
        \<and> length (payload ?fr) = unat (hdr_p3 ?fr)
        \<and> output_buffer_size ?q \<noteq> 0 \<and> \<not> utf8_valid (payload ?fr)
      \<longrightarrow> fst (put_output ?q (payload ?fr)) = Inr ()
        \<and> run_frame ?fr ?sr =
            (Inl UnicodeDecodeError,
             ?sr\<lparr>ext := Bytes (payload ?fr), log := log ?sr @ [DEBUG, DEBUG, DEBUG, DEBUG, DEBUG],
               serialports := (serialports ?sr)
                 [serialport ?inst := snd (put_output ?q (payload ?fr))]\<rparr>))
    \<and> (uint (hdr_cmd ?fr) = PI_CMD_SERR \<and> hdr_p3 ?fr = 0 \<and> input_buffer_size ?q \<noteq> 0
        \<and> fst (input_dat_avail ?q (input_buffer_r_index ?inst)) = Inr 1
        \<and> fst (get_input ?q (if le_uint (hdr_p2 ?fr) > 1 then 1 else le_uint (hdr_p2 ?fr))
                  (input_buffer_r_index ?inst)) = Inr ([255], 1)
        \<and> \<not> utf8_valid [255]
      \<longrightarrow> run_frame ?fr ?sr =
            (Inl UnicodeDecodeError,
             ?sr\<lparr>log := log ?sr @ [DEBUG, DEBUG, DEBUG, DEBUG, DEBUG],
               serial_instances := (serial_instances ?sr)
                 [unat (hdr_p1 ?fr) := ?inst\<lparr>input_buffer_r_index := 1\<rparr>]\<rparr>))"
    by (rule non_utf8_payload_no_response) (simp_all add: qv)
  have 1: "run_frame ?fw ?sw =
      (Inl UnicodeDecodeError,
       ?sw\<lparr>ext := Bytes [255], log := [DEBUG, DEBUG, DEBUG, DEBUG, DEBUG],
          serialports := [snd (put_output ?p [255])]\<rparr>)"
    using w by (simp add: cmd_defs SerialPort_init_def)
  have 2: "run_frame ?fr ?sr =
      (Inl UnicodeDecodeError,
       ?sr\<lparr>log := [DEBUG, DEBUG, DEBUG, DEBUG, DEBUG],
          serial_instances := [?inst\<lparr>input_buffer_r_index := 1\<rparr>]\<rparr>)"
  proof -
    have av: "fst (input_dat_avail ?q 0) = Inr 1"
      by (simp add: qv input_dat_avail_def)
    have gi: "fst (get_input ?q 1 0) = Inr ([255], 1)"
      by (simp add: qv get_input_def slice_def adjust_index_def Let_def)
    have sz: "input_buffer_size ?q = 4" by (simp add: qv)
    show ?thesis using r av gi nv by (simp add: cmd_defs sz)
  qed
  show ?thesis using nv 1 2 by simp
qed

text \<open>Every frame keeps a session in order.\<close>

lemma session_ok_iff:
  "session_ok s \<longleftrightarrow> (\<forall>i < length (serial_instances s).
      handle_id (serial_instances s ! i) = int i
      \<and> serialport (serial_instances s ! i) < length (serialports s))"
  by (auto simp add: session_ok_def list_all_iff)

lemma session_ok_init: "session_ok (PigpioClient_init hw)"
  by (simp add: session_ok_iff PigpioClient_init_def)

lemma session_ok_send_words: "session_ok s \<Longrightarrow> session_ok (snd (send_words s v))"
  by (simp add: session_ok_iff send_words_def split: sum.splits)

lemma session_ok_close: "session_ok s \<Longrightarrow> session_ok (snd (close_instance s h))"
  by (simp add: session_ok_iff close_instance_def send_words_def Let_def split: sum.splits)

lemma session_ok_data_available:
  "session_ok s \<Longrightarrow> session_ok (snd (data_available_request s h))"
  by (simp add: session_ok_iff data_available_request_def send_words_def Let_def
      case_prod_unfold split: sum.splits)

lemma session_ok_write: "session_ok s \<Longrightarrow> session_ok (snd (write_request s h d))"
  by (simp add: session_ok_iff write_request_def send_words_def Let_def
      case_prod_unfold split: sum.splits)

lemma session_ok_read:
  "session_ok s \<Longrightarrow> h < length (serial_instances s) \<Longrightarrow> session_ok (snd (read_request s h n))"
  by (simp add: session_ok_iff read_request_def send_words_def Let_def
      case_prod_unfold nth_list_update split: sum.splits)

lemma session_ok_open:
  "session_ok s \<Longrightarrow> session_ok (snd (serial_open s b))"
proof -
  assume ok: "session_ok s"
  have "\<And>nm k. find_serialport (serialports s) nm b 0 = Some k \<Longrightarrow> k < length (serialports s)"
    using find_serialport_Some by fastforce
  then show ?thesis using ok
    by (auto simp add: session_ok_iff serial_open_def open_instance_def send_words_def Let_def
      PigpioSerialInstance_init_def bind_def nth_append less_Suc_eq
      split: sum.splits ext_value.splits option.splits)
qed

lemma session_ok_run_frame: "session_ok s \<Longrightarrow> session_ok (snd (run_frame f s))"
proof (cases "hdr_p3 f \<noteq> 0 \<and> length (payload f) \<noteq> unat (hdr_p3 f)")
  case True
  assume "session_ok s"
  then show ?thesis using True by (simp add: run_frame_def)
next
  case False
  assume ok: "session_ok s"
  define s1 where "s1 =
     (if hdr_p3 f \<noteq> 0 then s\<lparr>ext := Bytes (payload f)\<rparr> else s)
       \<lparr>log := log s @ [DEBUG, DEBUG, DEBUG, DEBUG, DEBUG]\<rparr>"
  define p2 where "p2 = (if hdr_p3 f \<noteq> 0 then hdr_p2 f @ payload f else hdr_p2 f)"
  have ok1: "session_ok s1" using ok by (simp add: session_ok_iff s1_def)
  have len: "length (serial_instances s1) = length (serial_instances s)"
    by (simp add: s1_def)
  have rf: "run_frame f s =
     (if uint (hdr_cmd f) = PI_CMD_SERO then serial_open s1 (uint (hdr_p1 f))
      else if uint (hdr_cmd f) = PI_CMD_SERC then
        (if unat (hdr_p1 f) < length (serial_instances s)
         then close_instance s1 (unat (hdr_p1 f)) else (Inl IndexError, s1))
      else if uint (hdr_cmd f) = PI_CMD_SERW then
        (if unat (hdr_p1 f) < length (serial_instances s)
         then write_request s1 (unat (hdr_p1 f)) p2 else (Inl IndexError, s1))
      else if uint (hdr_cmd f) = PI_CMD_SERR then
        (case unpack_I p2 of
           Inl e \<Rightarrow> (Inl e, s1)
         | Inr n \<Rightarrow>
             (if unat (hdr_p1 f) < length (serial_instances s)
              then read_request s1 (unat (hdr_p1 f)) n else (Inl IndexError, s1)))
      else if uint (hdr_cmd f) = PI_CMD_SERDA then
        (if unat (hdr_p1 f) < length (serial_instances s)
         then data_available_request s1 (unat (hdr_p1 f)) else (Inl IndexError, s1))
      else (Inr (), s1\<lparr>log := log s1 @ [WARNING]\<rparr>))"
    using False
    by (cases "hdr_p3 f = 0")
       (simp_all add: run_frame_def Let_def s1_def p2_def getitem_uint cong: sum.case_cong)
  have okw: "session_ok (s1\<lparr>log := log s1 @ [WARNING]\<rparr>)"
    using ok1 by (simp add: session_ok_iff)
  show ?thesis
    unfolding rf
    using ok1 okw session_ok_open [OF ok1] session_ok_close [OF ok1]
      session_ok_write [OF ok1] session_ok_read [OF ok1] session_ok_data_available [OF ok1] len
    by (simp split: sum.splits)
qed

end
